theory Spec2Isabelle
  imports Main "HOL-Library.Sublist"
begin

section \<open>The document tree\<close>

text \<open>
  The microdata extractor (\<^verbatim>\<open>W3CMicrodata\<close> in package \<^verbatim>\<open>extractor\<close>) walks the
  tree that \<^verbatim>\<open>html.Parse\<close> returns. The parser belongs to \<^verbatim>\<open>golang.org/x/net/html\<close>;
  the model starts from its result. A node has a type, its data (the text of a text node, the
  tag name of an element), its attributes in source order and its children in document order
  (\<^verbatim>\<open>FirstChild\<close>/\<^verbatim>\<open>NextSibling\<close>). Go strings are byte sequences, here
  \<^typ>\<open>string\<close>.
\<close>

datatype NodeType =
  ErrorNode | TextNode | DocumentNode | ElementNode | CommentNode | DoctypeNode | RawNode

record Attribute =
  Namespace :: string
  Key :: string
  Val :: string

datatype node =
  Node (nodeType: NodeType) (nodeData: string) (nodeAttr: "Attribute list") (children: "node list")

section \<open>Library functions on strings\<close>

text \<open>
  \<^verbatim>\<open>strings.TrimSpace\<close> removes leading and trailing white space as
  \<^verbatim>\<open>unicode.IsSpace\<close> defines it: the six ASCII characters below, and the code points
  U+0085, U+00A0, U+1680, U+2000 to U+200A, U+2028, U+2029, U+202F, U+205F and U+3000, which
  a Go string holds in UTF-8.
\<close>

definition asciiSpace :: "char \<Rightarrow> bool" where
  "asciiSpace c =
     (c = CHR 0x09 \<or> c = CHR 0x0A \<or> c = CHR 0x0B \<or> c = CHR 0x0C \<or> c = CHR 0x0D \<or> c = CHR 0x20)"

definition unicodeSpaces :: "string list" where
  "unicodeSpaces =
     [[CHR 0xC2, CHR 0x85], [CHR 0xC2, CHR 0xA0], [CHR 0xE1, CHR 0x9A, CHR 0x80],
      [CHR 0xE2, CHR 0x80, CHR 0x80], [CHR 0xE2, CHR 0x80, CHR 0x81],
      [CHR 0xE2, CHR 0x80, CHR 0x82], [CHR 0xE2, CHR 0x80, CHR 0x83],
      [CHR 0xE2, CHR 0x80, CHR 0x84], [CHR 0xE2, CHR 0x80, CHR 0x85],
      [CHR 0xE2, CHR 0x80, CHR 0x86], [CHR 0xE2, CHR 0x80, CHR 0x87],
      [CHR 0xE2, CHR 0x80, CHR 0x88], [CHR 0xE2, CHR 0x80, CHR 0x89],
      [CHR 0xE2, CHR 0x80, CHR 0x8A], [CHR 0xE2, CHR 0x80, CHR 0xA8],
      [CHR 0xE2, CHR 0x80, CHR 0xA9], [CHR 0xE2, CHR 0x80, CHR 0xAF],
      [CHR 0xE2, CHR 0x81, CHR 0x9F], [CHR 0xE3, CHR 0x80, CHR 0x80]]"

text \<open>The number of bytes of the white-space character a string starts with, 0 if none.\<close>

fun spaceWidth :: "string list \<Rightarrow> string \<Rightarrow> nat" where
  "spaceWidth tbl [] = 0"
| "spaceWidth tbl (c # cs) =
     (if asciiSpace c then 1
      else (case find (\<lambda>w. prefix w (c # cs)) tbl of None \<Rightarrow> 0 | Some w \<Rightarrow> length w))"

fun trimFront :: "string list \<Rightarrow> string \<Rightarrow> string" where
  "trimFront tbl [] = []"
| "trimFront tbl (c # cs) =
     (if spaceWidth tbl (c # cs) = 0 then c # cs
      else trimFront tbl (drop (spaceWidth tbl (c # cs) - 1) cs))"

text \<open>Trailing white space is leading white space of the reversed string.\<close>

definition TrimSpace :: "string \<Rightarrow> string" where
  "TrimSpace s = rev (trimFront (map rev unicodeSpaces) (rev (trimFront unicodeSpaces s)))"

definition HasPrefix :: "string \<Rightarrow> string \<Rightarrow> bool" where
  "HasPrefix s p = prefix p s"

definition HasSuffix :: "string \<Rightarrow> string \<Rightarrow> bool" where
  "HasSuffix s x = prefix (rev x) (rev s)"

text \<open>
  \<^verbatim>\<open>url.Parse\<close> of \<^verbatim>\<open>net/url\<close> is not part of the repository. The extractor
  reads two fields of its result, and only when it returned no error; the parser is a
  parameter of the model, \<open>None\<close> standing for \<^verbatim>\<open>err != nil\<close>.
\<close>

record URL =
  Scheme :: string
  Host :: string

type_synonym url_Parse = "string \<Rightarrow> URL option"

section \<open>Items\<close>

text \<open>
  \<^verbatim>\<open>Properties map[string]any\<close> holds strings, pointers to items and
  \<^verbatim>\<open>[]any\<close> slices; a key that is absent reads as \<^verbatim>\<open>nil\<close>.
\<close>

datatype anyval = String string | ItemPtr MicrodataItem | Slice "anyval list"
and MicrodataItem =
  MicrodataItem (Type: string) (ID: "string option") (Properties: "string \<Rightarrow> anyval option")

section \<open>Attribute lookup\<close>

fun getAttr_loop :: "Attribute list \<Rightarrow> string \<Rightarrow> bool" where
  "getAttr_loop [] key = False"
| "getAttr_loop (attr # rest) key = (if Key attr = key then True else getAttr_loop rest key)"

definition getAttr :: "node \<Rightarrow> string \<Rightarrow> bool" where
  "getAttr n key = getAttr_loop (nodeAttr n) key"

fun getAttrVal_loop :: "Attribute list \<Rightarrow> string \<Rightarrow> string" where
  "getAttrVal_loop [] key = []"
| "getAttrVal_loop (attr # rest) key =
     (if Key attr = key then TrimSpace (Val attr) else getAttrVal_loop rest key)"

definition getAttrVal :: "node \<Rightarrow> string \<Rightarrow> string" where
  "getAttrVal n key = getAttrVal_loop (nodeAttr n) key"

section \<open>Accumulating the values of a property\<close>

fun appendValue :: "anyval option \<Rightarrow> anyval \<Rightarrow> anyval" where
  "appendValue None v = v"
| "appendValue (Some (Slice vs)) v = Slice (vs @ [v])"
| "appendValue (Some existing) v = Slice [existing, v]"

text \<open>\<^verbatim>\<open>item.Properties[prop] = appendValue(item.Properties[prop], value)\<close>\<close>

definition bindProperty :: "MicrodataItem \<Rightarrow> string \<Rightarrow> anyval \<Rightarrow> MicrodataItem" where
  "bindProperty item prop v =
     MicrodataItem (Type item) (ID item)
       ((Properties item)(prop \<mapsto> appendValue (Properties item prop) v))"

section \<open>Text content\<close>

text \<open>
  The closure \<^verbatim>\<open>f\<close> of \<^verbatim>\<open>getTextContent\<close> writes to the string builder
  \<^verbatim>\<open>sb\<close>, passed here as an argument and returned. The inner loop reads the first
  attribute named \<^verbatim>\<open>value\<close>, untrimmed.
\<close>

fun valueAttr :: "Attribute list \<Rightarrow> string" where
  "valueAttr [] = []"
| "valueAttr (attr # rest) = (if Key attr = ''value'' then Val attr else valueAttr rest)"

fun getTextContent_f :: "node \<Rightarrow> string \<Rightarrow> string"
and getTextContent_children :: "node list \<Rightarrow> string \<Rightarrow> string" where
  "getTextContent_f (Node t d a cs) sb =
     getTextContent_children cs
       (if t = TextNode then (if sb = [] then sb @ d else sb)
        else if t = ElementNode then sb @ valueAttr a
        else sb)"
| "getTextContent_children [] sb = sb"
| "getTextContent_children (c # cs) sb = getTextContent_children cs (getTextContent_f c sb)"

definition getTextContent :: "node \<Rightarrow> string" where
  "getTextContent n = TrimSpace (getTextContent_f n [])"

section \<open>Properties of an item\<close>

text \<open>
  Both \<^verbatim>\<open>parseNode\<close> and \<^verbatim>\<open>parseProperties\<close> start an item the same way: an
  empty property map, the type and the id set when the trimmed attribute is not empty.
\<close>

definition newItem :: "node \<Rightarrow> MicrodataItem" where
  "newItem n =
     (let itemType = getAttrVal n ''itemtype'';
          itemID = getAttrVal n ''itemid''
      in MicrodataItem (if itemType \<noteq> [] then itemType else [])
           (if itemID \<noteq> [] then Some itemID else None) Map.empty)"

text \<open>
  \<^verbatim>\<open>baseURL\<close> is empty unless \<^verbatim>\<open>url.Parse(URL)\<close> succeeds; then it is
  \<^verbatim>\<open>fmt.Sprintf("%s://%s", parsedURL.Scheme, parsedURL.Host)\<close>.
\<close>

definition baseURL :: "url_Parse \<Rightarrow> string \<Rightarrow> string" where
  "baseURL up URL =
     (case up URL of None \<Rightarrow> [] | Some parsedURL \<Rightarrow> Scheme parsedURL @ ''://'' @ Host parsedURL)"

text \<open>The value of a property element that starts no item of its own.\<close>

definition propertyValue :: "url_Parse \<Rightarrow> node \<Rightarrow> string \<Rightarrow> string \<Rightarrow> string" where
  "propertyValue up c prop URL =
     (let value = getTextContent c;
          datetime = getAttrVal c ''datetime''
      in if datetime \<noteq> [] then datetime
         else if prop = ''url'' \<or> HasSuffix prop ''Url'' then
           (let href = getAttrVal c ''href''
            in if HasPrefix href ''//'' \<or> HasPrefix href ''http://'' \<or> HasPrefix href ''https://''
               then href
               else baseURL up URL @ href)
         else value)"

text \<open>
  \<^verbatim>\<open>parseProperties\<close> mutates the item it is given; the model returns the item.
  \<open>parseProperties_loop\<close> is its loop over the children, \<open>parseProperties_child\<close> the body of
  the loop.
\<close>

fun parseProperties :: "url_Parse \<Rightarrow> node \<Rightarrow> MicrodataItem \<Rightarrow> string \<Rightarrow> MicrodataItem"
and parseProperties_loop :: "url_Parse \<Rightarrow> node list \<Rightarrow> MicrodataItem \<Rightarrow> string \<Rightarrow> MicrodataItem"
and parseProperties_child :: "url_Parse \<Rightarrow> node \<Rightarrow> MicrodataItem \<Rightarrow> string \<Rightarrow> MicrodataItem"
where
  "parseProperties up (Node t d a cs) item URL = parseProperties_loop up cs item URL"
| "parseProperties_loop up [] item URL = item"
| "parseProperties_loop up (c # cs) item URL =
     parseProperties_loop up cs (parseProperties_child up c item URL) URL"
| "parseProperties_child up c item URL =
     (if nodeType c = ElementNode then
        (if getAttrVal c ''itemprop'' \<noteq> [] then
           (if getAttr c ''itemscope'' then
              bindProperty item (getAttrVal c ''itemprop'')
                (ItemPtr (parseProperties up c (newItem c) URL))
            else
              bindProperty item (getAttrVal c ''itemprop'')
                (String (propertyValue up c (getAttrVal c ''itemprop'') URL)))
         else parseProperties up c item URL)
      else item)"

section \<open>Top-level items\<close>

text \<open>
  The closure \<^verbatim>\<open>parseNode\<close> appends to the slice \<^verbatim>\<open>items\<close>, passed here as an
  argument and returned. \<^verbatim>\<open>errors\<close> is declared and returned, and nothing is ever
  appended to it.
\<close>

datatype error = Error string

fun parseNode :: "url_Parse \<Rightarrow> string \<Rightarrow> node \<Rightarrow> MicrodataItem list \<Rightarrow> MicrodataItem list"
and parseNode_loop :: "url_Parse \<Rightarrow> string \<Rightarrow> node list \<Rightarrow> MicrodataItem list \<Rightarrow> MicrodataItem list"
where
  "parseNode up URL (Node t d a cs) items =
     (if t = ElementNode \<and> getAttr (Node t d a cs) ''itemscope'' then
        items @ [parseProperties up (Node t d a cs) (newItem (Node t d a cs)) URL]
      else parseNode_loop up URL cs items)"
| "parseNode_loop up URL [] items = items"
| "parseNode_loop up URL (c # cs) items = parseNode_loop up URL cs (parseNode up URL c items)"

definition parseW3CMicrodata :: "url_Parse \<Rightarrow> string \<Rightarrow> node \<Rightarrow> MicrodataItem list \<times> error list" where
  "parseW3CMicrodata up URL doc = (let errors = [] in (parseNode up URL doc [], errors))"

fun W3CMicrodata_loop :: "MicrodataItem list \<Rightarrow> MicrodataItem list \<Rightarrow> MicrodataItem list" where
  "W3CMicrodata_loop [] results = results"
| "W3CMicrodata_loop (item # rest) results =
     W3CMicrodata_loop rest
       (results @ [MicrodataItem (Type item) (if ID item \<noteq> None then ID item else None)
                     (Properties item)])"

definition W3CMicrodata :: "url_Parse \<Rightarrow> string \<Rightarrow> node \<Rightarrow> MicrodataItem list \<times> error list" where
  "W3CMicrodata up URL doc =
     (case parseW3CMicrodata up URL doc of (items, errors) \<Rightarrow> (W3CMicrodata_loop items [], errors))"

section \<open>The property scan, read off the tree\<close>

text \<open>
  The value that the loop of \<^verbatim>\<open>parseProperties\<close> binds for a child with a property name:
  the nested item when the child carries \<^verbatim>\<open>itemscope\<close>, its string value otherwise.
\<close>

definition childValue :: "url_Parse \<Rightarrow> string \<Rightarrow> node \<Rightarrow> anyval" where
  "childValue up URL c =
     (if getAttr c ''itemscope'' then ItemPtr (parseProperties up c (newItem c) URL)
      else String (propertyValue up c (getAttrVal c ''itemprop'') URL))"

text \<open>
  The bindings of the scan in document order, as a list of names and values: an element with
  a property name gives one binding and hides its subtree, an element without one is looked
  through, any other node gives nothing.
\<close>

fun bindings :: "url_Parse \<Rightarrow> string \<Rightarrow> node \<Rightarrow> (string \<times> anyval) list"
and bindings_list :: "url_Parse \<Rightarrow> string \<Rightarrow> node list \<Rightarrow> (string \<times> anyval) list" where
  "bindings up URL (Node t d a cs) =
     (if t = ElementNode then
        (if getAttrVal (Node t d a cs) ''itemprop'' \<noteq> [] then
           [(getAttrVal (Node t d a cs) ''itemprop'', childValue up URL (Node t d a cs))]
         else bindings_list up URL cs)
      else [])"
| "bindings_list up URL [] = []"
| "bindings_list up URL (c # cs) = bindings up URL c @ bindings_list up URL cs"

definition valuesFor :: "string \<Rightarrow> (string \<times> anyval) list \<Rightarrow> anyval list" where
  "valuesFor p bs = map snd (filter (\<lambda>b. fst b = p) bs)"

text \<open>A slot of the property map holding the given values: absent, a scalar, or a sequence.\<close>

fun slot :: "anyval list \<Rightarrow> anyval option" where
  "slot [] = None"
| "slot [v] = Some v"
| "slot vs = Some (Slice vs)"

fun slotValues :: "anyval option \<Rightarrow> anyval list" where
  "slotValues None = []"
| "slotValues (Some (Slice vs)) = vs"
| "slotValues (Some v) = [v]"

fun isSlice :: "anyval \<Rightarrow> bool" where
  "isSlice (Slice vs) = True"
| "isSlice v = False"

text \<open>The first attribute with the given key, if any, with its value as the parser left it.\<close>

fun lookupAttr :: "Attribute list \<Rightarrow> string \<Rightarrow> string option" where
  "lookupAttr [] key = None"
| "lookupAttr (attr # rest) key = (if Key attr = key then Some (Val attr) else lookupAttr rest key)"

subsection \<open>Positions in the tree\<close>

text \<open>A path is the list of child indices from a node down to one of its descendants.\<close>

fun nodeAt :: "node \<Rightarrow> nat list \<Rightarrow> node option" where
  "nodeAt n [] = Some n"
| "nodeAt n (i # q) = (if i < length (children n) then nodeAt (children n ! i) q else None)"

text \<open>
  \<open>scannedAt n r\<close> is the descendant of \<open>n\<close> at the path \<open>r\<close> when the property scan of \<open>n\<close>
  visits it: every node strictly between the two is an element without a property name.
\<close>

fun scannedAt :: "node \<Rightarrow> nat list \<Rightarrow> node option" where
  "scannedAt n [] = None"
| "scannedAt n [i] = (if i < length (children n) then Some (children n ! i) else None)"
| "scannedAt n (i # j # r) =
     (if i < length (children n) \<and> nodeType (children n ! i) = ElementNode
         \<and> getAttrVal (children n ! i) ''itemprop'' = []
      then scannedAt (children n ! i) (j # r) else None)"

text \<open>The elements that \<^verbatim>\<open>parseNode\<close> turns into top-level items, with their paths.\<close>

fun topItems :: "node \<Rightarrow> (nat list \<times> node) list"
and topItems_list :: "nat \<Rightarrow> node list \<Rightarrow> (nat list \<times> node) list" where
  "topItems (Node t d a cs) =
     (if t = ElementNode \<and> getAttr (Node t d a cs) ''itemscope'' then [([], Node t d a cs)]
      else topItems_list 0 cs)"
| "topItems_list i [] = []"
| "topItems_list i (c # cs) =
     map (\<lambda>e. (i # fst e, snd e)) (topItems c) @ topItems_list (Suc i) cs"

text \<open>The tree with the node at a path replaced by its children.\<close>

fun spliceAt :: "node \<Rightarrow> nat list \<Rightarrow> node" where
  "spliceAt n [] = n"
| "spliceAt (Node t d a cs) [i] =
     (if i < length cs then Node t d a (take i cs @ children (cs ! i) @ drop (Suc i) cs)
      else Node t d a cs)"
| "spliceAt (Node t d a cs) (i # j # r) =
     (if i < length cs then Node t d a (cs[i := spliceAt (cs ! i) (j # r)]) else Node t d a cs)"

fun hasItemscope :: "node \<Rightarrow> bool"
and hasItemscope_list :: "node list \<Rightarrow> bool" where
  "hasItemscope (Node t d a cs) =
     ((t = ElementNode \<and> getAttr (Node t d a cs) ''itemscope'') \<or> hasItemscope_list cs)"
| "hasItemscope_list [] = False"
| "hasItemscope_list (c # cs) = (hasItemscope c \<or> hasItemscope_list cs)"

subsection \<open>Text content, as the specification words it\<close>

fun preorder :: "node \<Rightarrow> node list"
and preorder_list :: "node list \<Rightarrow> node list" where
  "preorder (Node t d a cs) = Node t d a cs # preorder_list cs"
| "preorder_list [] = []"
| "preorder_list (c # cs) = preorder c @ preorder_list cs"

text \<open>One step of the closure \<^verbatim>\<open>f\<close> at a node, without its children.\<close>

definition scanStep :: "node \<Rightarrow> string \<Rightarrow> string" where
  "scanStep n sb =
     (if nodeType n = TextNode then (if sb = [] then sb @ nodeData n else sb)
      else if nodeType n = ElementNode then sb @ valueAttr (nodeAttr n)
      else sb)"

definition valueOf :: "node \<Rightarrow> string" where
  "valueOf n = (if nodeType n = ElementNode then valueAttr (nodeAttr n) else [])"

definition contribution :: "node \<Rightarrow> string" where
  "contribution n = (if nodeType n = TextNode then nodeData n else valueOf n)"

text \<open>
  The first non-empty text node or \<^verbatim>\<open>value\<close> attribute of the pre-order scan, followed
  by the \<^verbatim>\<open>value\<close> attributes of all elements after it, trimmed.
\<close>

definition textContent_spec :: "node \<Rightarrow> string" where
  "textContent_spec n =
     TrimSpace (case dropWhile (\<lambda>m. contribution m = []) (preorder n) of
                  [] \<Rightarrow> []
                | m # ms \<Rightarrow> contribution m @ concat (map valueOf ms))"

section \<open>Example documents\<close>

definition attr :: "string \<Rightarrow> string \<Rightarrow> Attribute" where
  "attr k v = \<lparr>Namespace = [], Key = k, Val = v\<rparr>"

definition txt_node :: "string \<Rightarrow> node" where
  "txt_node s = Node TextNode s [] []"

definition element :: "string \<Rightarrow> Attribute list \<Rightarrow> node list \<Rightarrow> node" where
  "element tag as cs = Node ElementNode tag as cs"

definition document :: "node list \<Rightarrow> node" where
  "document cs = Node DocumentNode [] [] cs"

text \<open>
  What \<^verbatim>\<open>url.Parse\<close> returns for the base URLs the examples use: the base URL of the
  specification's example; the empty string, which parses to a URL with empty scheme and
  host; and \<^verbatim>\<open>:foo\<close>, for which it returns the error
  \<^verbatim>\<open>missing protocol scheme\<close>. No example uses another base URL.
\<close>

definition parse_example :: url_Parse where
  "parse_example u =
     (if u = ''http://host.example/base/page''
      then Some \<lparr>Scheme = ''http'', Host = ''host.example''\<rparr>
      else if u = [] then Some \<lparr>Scheme = [], Host = []\<rparr>
      else None)"

text \<open>
  \<^verbatim>\<open><div itemscope><span itemprop="color">yellow</span><span itemprop="color">green</span></div>\<close>
\<close>

definition doc_colors :: node where
  "doc_colors = document
     [element ''div'' [attr ''itemscope'' []]
        [element ''span'' [attr ''itemprop'' ''color''] [txt_node ''yellow''],
         element ''span'' [attr ''itemprop'' ''color''] [txt_node ''green'']]]"

text \<open>\<^verbatim>\<open><html><body>hi</body></html>\<close>\<close>

definition doc_plain :: node where
  "doc_plain = document [element ''html'' [] [element ''body'' [] [txt_node ''hi'']]]"

text \<open>
  \<^verbatim>\<open><div itemscope itemtype="http://schema.org/Person"><span itemprop="name">Ann</span>\<close>
  \<^verbatim>\<open><div itemprop="address" itemscope itemtype="http://schema.org/PostalAddress">\<close>
  \<^verbatim>\<open><span itemprop="city">Oslo</span></div></div>\<close>
\<close>

definition elem_address :: node where
  "elem_address =
     element ''div''
       [attr ''itemprop'' ''address'', attr ''itemscope'' [],
        attr ''itemtype'' ''http://schema.org/PostalAddress'']
       [element ''span'' [attr ''itemprop'' ''city''] [txt_node ''Oslo'']]"

definition elem_person :: node where
  "elem_person =
     element ''div'' [attr ''itemscope'' [], attr ''itemtype'' ''http://schema.org/Person'']
       [element ''span'' [attr ''itemprop'' ''name''] [txt_node ''Ann''], elem_address]"

definition doc_person :: node where
  "doc_person = document [elem_person]"

text \<open>
  \<^verbatim>\<open><div itemscope><div itemprop="a"><span itemprop="b" itemscope>\<close>
  \<^verbatim>\<open><span itemprop="name">Bob</span></span></div></div>\<close>
\<close>

definition elem_hidden :: node where
  "elem_hidden =
     element ''span'' [attr ''itemprop'' ''b'', attr ''itemscope'' []]
       [element ''span'' [attr ''itemprop'' ''name''] [txt_node ''Bob'']]"

definition doc_hidden :: node where
  "doc_hidden = document
     [element ''div'' [attr ''itemscope'' []]
        [element ''div'' [attr ''itemprop'' ''a''] [elem_hidden]]]"

text \<open>
  \<^verbatim>\<open><div itemscope itemid=""></div>\<close> and \<^verbatim>\<open><div itemscope itemid=" urn:x "></div>\<close>
\<close>

definition doc_empty_id :: node where
  "doc_empty_id = document [element ''div'' [attr ''itemscope'' [], attr ''itemid'' []] []]"

definition doc_spaced_id :: node where
  "doc_spaced_id = document [element ''div'' [attr ''itemscope'' [], attr ''itemid'' '' urn:x ''] []]"

text \<open>\<^verbatim>\<open><span itemprop="name"> Ann <input value="X"></span>\<close>\<close>

definition elem_name :: node where
  "elem_name =
     element ''span'' [attr ''itemprop'' ''name'']
       [txt_node '' Ann '', element ''input'' [attr ''value'' ''X''] []]"

text \<open>\<^verbatim>\<open><div itemscope><a itemprop="url" href="/path">link</a></div>\<close>, and variants of the anchor.\<close>

definition elem_url :: node where
  "elem_url = element ''a'' [attr ''itemprop'' ''url'', attr ''href'' ''/path''] [txt_node ''link'']"

definition doc_url :: node where
  "doc_url = document [element ''div'' [attr ''itemscope'' []] [elem_url]]"

definition doc_url_spaced :: node where
  "doc_url_spaced = document
     [element ''div'' [attr ''itemscope'' []]
        [element ''a'' [attr ''itemprop'' ''url'', attr ''href'' ''http://a.example/x ''] []]]"

definition elem_url_datetime :: node where
  "elem_url_datetime =
     element ''a'' [attr ''itemprop'' ''url'', attr ''href'' ''/path'', attr ''datetime'' '' 2020-01-01 '']
       [txt_node ''link'']"

definition doc_url_datetime :: node where
  "doc_url_datetime = document [element ''div'' [attr ''itemscope'' []] [elem_url_datetime]]"

definition elem_url_bare :: node where
  "elem_url_bare = element ''a'' [attr ''itemprop'' ''url''] [txt_node ''click'']"

text \<open>\<^verbatim>\<open><div itemscope><time itemprop="date" datetime="">hello</time></div>\<close>\<close>

definition elem_empty_datetime :: node where
  "elem_empty_datetime =
     element ''time'' [attr ''itemprop'' ''date'', attr ''datetime'' []] [txt_node ''hello'']"

definition doc_empty_datetime :: node where
  "doc_empty_datetime = document [element ''div'' [attr ''itemscope'' []] [elem_empty_datetime]]"

text \<open>
  \<^verbatim>\<open><div itemscope><div itemscope itemtype="http://schema.org/Thing">\<close>
  \<^verbatim>\<open><span itemprop="name">Ann</span></div></div>\<close>
\<close>

definition elem_inner_name :: node where
  "elem_inner_name = element ''span'' [attr ''itemprop'' ''name''] [txt_node ''Ann'']"

definition elem_wrapper :: node where
  "elem_wrapper =
     element ''div'' [attr ''itemscope'' [], attr ''itemtype'' ''http://schema.org/Thing'']
       [elem_inner_name]"

definition elem_outer :: node where
  "elem_outer = element ''div'' [attr ''itemscope'' []] [elem_wrapper]"

definition doc_wrapped :: node where
  "doc_wrapped = document [elem_outer]"

text \<open>Items around the property elements above.\<close>

definition elem_item_name :: node where
  "elem_item_name = element ''div'' [attr ''itemscope'' []] [elem_name]"

definition doc_name :: node where
  "doc_name = document [elem_item_name]"

definition elem_item_url_datetime :: node where
  "elem_item_url_datetime = element ''div'' [attr ''itemscope'' []] [elem_url_datetime]"

definition elem_item_url_bare :: node where
  "elem_item_url_bare = element ''div'' [attr ''itemscope'' []] [elem_url_bare]"

definition doc_url_bare :: node where
  "doc_url_bare = document [elem_item_url_bare]"

text \<open>\<^verbatim>\<open><div itemscope><a itemprop="url" itemscope>click</a></div>\<close>\<close>

definition doc_url_scope :: node where
  "doc_url_scope = document
     [element ''div'' [attr ''itemscope'' []]
        [element ''a'' [attr ''itemprop'' ''url'', attr ''itemscope'' []] [txt_node ''click'']]]"

text \<open>
  \<^verbatim>\<open><div itemscope><div itemscope><div itemprop="a">\<close>
  \<^verbatim>\<open><span itemprop="b">Bob</span></div></div></div>\<close>
\<close>

definition elem_b :: node where
  "elem_b = element ''span'' [attr ''itemprop'' ''b''] [txt_node ''Bob'']"

definition doc_wrapped_hidden :: node where
  "doc_wrapped_hidden = document
     [element ''div'' [attr ''itemscope'' []]
        [element ''div'' [attr ''itemscope'' []]
           [element ''div'' [attr ''itemprop'' ''a''] [elem_b]]]]"


section \<open>The scan as a list of bindings\<close>

lemmas eval_defs =
  W3CMicrodata_def parseW3CMicrodata_def attr_def txt_node_def element_def document_def
  getAttr_def getAttrVal_def newItem_def bindProperty_def propertyValue_def baseURL_def
  getTextContent_def childValue_def HasSuffix_def HasPrefix_def TrimSpace_def
  unicodeSpaces_def asciiSpace_def parse_example_def Let_def

lemma loop_bindings:
  "parseProperties up n item URL =
     fold (\<lambda>b it. bindProperty it (fst b) (snd b)) (bindings_list up URL (children n)) item"
  "parseProperties_loop up cs item URL =
     fold (\<lambda>b it. bindProperty it (fst b) (snd b)) (bindings_list up URL cs) item"
  "parseProperties_child up c item URL =
     fold (\<lambda>b it. bindProperty it (fst b) (snd b)) (bindings up URL c) item"
proof (induction up n item URL and up cs item URL and up c item URL
       rule: parseProperties_parseProperties_loop_parseProperties_child.induct)
  case (1 up t d a cs item URL)
  then show ?case by simp
next
  case (2 up item URL)
  then show ?case by simp
next
  case (3 up c cs item URL)
  then show ?case by simp
next
  case (4 up c item URL)
  then show ?case
    by (cases c) (simp add: childValue_def)
qed

lemma bindings_not_Slice:
  "b \<in> set (bindings up URL n) \<Longrightarrow> \<not> isSlice (snd b)"
  "b \<in> set (bindings_list up URL cs) \<Longrightarrow> \<not> isSlice (snd b)"
  by (induction up URL n and up URL cs rule: bindings_bindings_list.induct)
     (auto simp: childValue_def split: if_splits)

lemma Properties_bindProperty:
  "Properties (bindProperty item q v) p =
     (if q = p then Some (appendValue (Properties item p) v) else Properties item p)"
  by (simp add: bindProperty_def)

lemma Properties_fold_bind:
  "Properties (fold (\<lambda>b it. bindProperty it (fst b) (snd b)) bs item) p =
     fold (\<lambda>v s. Some (appendValue s v)) (valuesFor p bs) (Properties item p)"
  by (induction bs arbitrary: item) (simp_all add: valuesFor_def Properties_bindProperty)

lemma fold_append_Slice:
  "fold (\<lambda>v s. Some (appendValue s v)) vs (Some (Slice ws)) = Some (Slice (ws @ vs))"
  by (induction vs arbitrary: ws) simp_all

lemma fold_append_None:
  assumes "list_all (\<lambda>v. \<not> isSlice v) vs"
  shows "fold (\<lambda>v s. Some (appendValue s v)) vs None = slot vs"
proof (cases vs)
  case Nil
  then show ?thesis by simp
next
  case outer: (Cons v ws)
  show ?thesis
  proof (cases ws)
    case Nil
    with outer show ?thesis by simp
  next
    case (Cons w us)
    with assms outer show ?thesis
      by (cases v) (simp_all add: fold_append_Slice)
  qed
qed

lemma valuesFor_not_Slice:
  "list_all (\<lambda>v. \<not> isSlice v) (valuesFor p (bindings_list up URL cs))"
  using bindings_not_Slice(2) [of _ up URL cs]
  by (auto simp: valuesFor_def list_all_iff)

lemma Properties_newItem: "Properties (newItem n) p = None"
  by (simp add: newItem_def Let_def)

lemma Properties_parse:
  "Properties (parseProperties up n (newItem n) URL) p =
     slot (valuesFor p (bindings_list up URL (children n)))"
  by (simp add: loop_bindings(1) Properties_fold_bind Properties_newItem fold_append_None
      valuesFor_not_Slice)

lemma slotValues_slot:
  assumes "list_all (\<lambda>v. \<not> isSlice v) vs"
  shows "slotValues (slot vs) = vs"
proof (cases vs)
  case Nil
  then show ?thesis by simp
next
  case (Cons v ws)
  with assms show ?thesis by (cases ws; cases v) simp_all
qed

lemma bindings_list_append:
  "bindings_list up URL (xs @ ys) = bindings_list up URL xs @ bindings_list up URL ys"
  by (induction xs) simp_all

lemma bindings_nth:
  "i < length cs \<Longrightarrow> set (bindings up URL (cs ! i)) \<subseteq> set (bindings_list up URL cs)"
proof (induction cs arbitrary: i)
  case Nil
  then show ?case by simp
next
  case (Cons c cs)
  then show ?case by (cases i) auto
qed

lemma bindings_children:
  "nodeType c = ElementNode \<Longrightarrow> getAttrVal c ''itemprop'' = [] \<Longrightarrow>
   bindings up URL c = bindings_list up URL (children c)"
  by (cases c) simp

lemma bindings_property:
  "nodeType c = ElementNode \<Longrightarrow> getAttrVal c ''itemprop'' \<noteq> [] \<Longrightarrow>
   bindings up URL c = [(getAttrVal c ''itemprop'', childValue up URL c)]"
  by (cases c) simp

lemma scannedAt_bindings:
  "scannedAt n r = Some c \<Longrightarrow> nodeType c = ElementNode \<Longrightarrow> getAttrVal c ''itemprop'' \<noteq> [] \<Longrightarrow>
   (getAttrVal c ''itemprop'', childValue up URL c) \<in> set (bindings_list up URL (children n))"
proof (induction n r rule: scannedAt.induct)
  case (1 n)
  then show ?case by simp
next
  case (2 n i)
  then have i: "i < length (children n)" and c: "c = children n ! i"
    by (auto split: if_splits)
  from 2 c have "bindings up URL (children n ! i) = [(getAttrVal c ''itemprop'', childValue up URL c)]"
    by (simp add: bindings_property)
  with bindings_nth [OF i, of up URL] show ?case by simp
next
  case (3 n i j r)
  let ?d = "children n ! i"
  from "3.prems"(1) have i: "i < length (children n)" and d: "nodeType ?d = ElementNode"
    "getAttrVal ?d ''itemprop'' = []" and s: "scannedAt ?d (j # r) = Some c"
    by (auto split: if_splits)
  from "3.IH" i d s "3.prems"(2,3)
  have "(getAttrVal c ''itemprop'', childValue up URL c) \<in> set (bindings_list up URL (children ?d))"
    by simp
  then have "(getAttrVal c ''itemprop'', childValue up URL c) \<in> set (bindings up URL ?d)"
    using d by (simp add: bindings_children)
  with bindings_nth [OF i, of up URL] show ?case by auto
qed

section \<open>Top-level items\<close>

lemma parseNode_topItems:
  "parseNode up URL n items =
     items @ map (\<lambda>e. parseProperties up (snd e) (newItem (snd e)) URL) (topItems n)"
  "parseNode_loop up URL cs items =
     items @ map (\<lambda>e. parseProperties up (snd e) (newItem (snd e)) URL) (topItems_list i cs)"
proof (induction up URL n items and up URL cs items arbitrary: and i
       rule: parseNode_parseNode_loop.induct)
  case (1 up URL t d a cs items)
  show ?case
  proof (cases "t = ElementNode \<and> getAttr (Node t d a cs) ''itemscope''")
    case True
    then show ?thesis by auto
  next
    case False
    with "1.IH" [of 0] show ?thesis by auto
  qed
next
  case (2 up URL items)
  then show ?case by simp
next
  case (3 up URL c cs items)
  have "parseNode_loop up URL cs (parseNode up URL c items) =
          parseNode up URL c items @
          map (\<lambda>e. parseProperties up (snd e) (newItem (snd e)) URL) (topItems_list (Suc i) cs)"
    by (rule "3.IH"(2))
  then show ?case
    by (simp add: "3.IH"(1) comp_def)
qed

lemma MicrodataItem_copy:
  "MicrodataItem (Type item) (if ID item \<noteq> None then ID item else None) (Properties item) = item"
  by (cases item) simp

lemma W3CMicrodata_loop_copy: "W3CMicrodata_loop items results = results @ items"
  by (induction items arbitrary: results) (simp_all add: MicrodataItem_copy del: not_None_eq)

lemma W3CMicrodata_topItems:
  "W3CMicrodata up URL doc =
     (map (\<lambda>e. parseProperties up (snd e) (newItem (snd e)) URL) (topItems doc), [])"
  by (simp add: W3CMicrodata_def parseW3CMicrodata_def W3CMicrodata_loop_copy
      parseNode_topItems(1))

lemma topItems_list_iff:
  "(i # q, m) \<in> set (topItems_list k cs) \<longleftrightarrow>
     k \<le> i \<and> i - k < length cs \<and> (q, m) \<in> set (topItems (cs ! (i - k)))"
proof (induction cs arbitrary: k)
  case Nil
  then show ?case by simp
next
  case (Cons c cs)
  show ?case
  proof (cases "i = k")
    case True
    then show ?thesis using Cons [of "Suc k"] by (force simp: image_iff)
  next
    case False
    then show ?thesis using Cons [of "Suc k"] by (auto simp: Suc_diff_le nth_Cons')
  qed
qed

lemma topItems_no_scope_above:
  "(q @ r, m) \<in> set (topItems doc) \<Longrightarrow> r \<noteq> [] \<Longrightarrow> nodeAt doc q = Some n \<Longrightarrow>
   \<not> (nodeType n = ElementNode \<and> getAttr n ''itemscope'')"
proof (induction q arbitrary: doc)
  case Nil
  then show ?case by (cases doc) (auto split: if_splits)
next
  case (Cons i q)
  obtain t d a cs where doc: "doc = Node t d a cs" by (cases doc)
  from Cons.prems(1) doc have mem: "(i # q @ r, m) \<in> set (topItems_list 0 cs)"
    by (auto split: if_splits)
  then have i: "i < length cs" and sub: "(q @ r, m) \<in> set (topItems (cs ! i))"
    by (simp_all add: topItems_list_iff)
  from Cons.prems(3) doc i have "nodeAt (cs ! i) q = Some n" by simp
  from Cons.IH [OF sub Cons.prems(2) this] show ?case .
qed

lemma scannedAt_nonempty: "scannedAt n r = Some c \<Longrightarrow> r \<noteq> []"
  by (cases r) simp_all

lemma not_top_below_scope:
  assumes "nodeAt doc q = Some n" "nodeType n = ElementNode" "getAttr n ''itemscope''" "r \<noteq> []"
  shows "q @ r \<notin> fst ` set (topItems doc)"
proof
  assume "q @ r \<in> fst ` set (topItems doc)"
  then obtain m where "(q @ r, m) \<in> set (topItems doc)" by auto
  from topItems_no_scope_above [OF this assms(4) assms(1)] assms(2,3) show False by simp
qed

lemma bound_value_in_slot:
  assumes "(p, v) \<in> set (bindings_list up URL (children n))"
  shows "v \<in> set (slotValues (Properties (parseProperties up n (newItem n) URL) p))"
proof -
  from assms have "v \<in> set (valuesFor p (bindings_list up URL (children n)))"
    by (force simp: valuesFor_def)
  then show ?thesis
    by (simp add: Properties_parse slotValues_slot valuesFor_not_Slice)
qed

section \<open>Attributes\<close>

lemma getAttr_lookupAttr: "getAttr n key = (lookupAttr (nodeAttr n) key \<noteq> None)"
proof -
  have "getAttr_loop as key = (lookupAttr as key \<noteq> None)" for as
    by (induction as) simp_all
  then show ?thesis by (simp add: getAttr_def)
qed

lemma getAttrVal_lookupAttr:
  "getAttrVal n key = (case lookupAttr (nodeAttr n) key of None \<Rightarrow> [] | Some v \<Rightarrow> TrimSpace v)"
proof -
  have "getAttrVal_loop as key = (case lookupAttr as key of None \<Rightarrow> [] | Some v \<Rightarrow> TrimSpace v)" for as
    by (induction as) simp_all
  then show ?thesis by (simp add: getAttrVal_def)
qed

lemma ID_bindProperty: "ID (bindProperty item p v) = ID item"
  by (simp add: bindProperty_def)

lemma ID_fold_bind: "ID (fold (\<lambda>b it. bindProperty it (fst b) (snd b)) bs item) = ID item"
  by (induction bs arbitrary: item) (simp_all add: ID_bindProperty)

lemma ID_parseProperties: "ID (parseProperties up n item URL) = ID item"
  by (simp add: loop_bindings(1) ID_fold_bind)

lemma ID_newItem:
  "ID (newItem n) =
     (case lookupAttr (nodeAttr n) ''itemid'' of
        None \<Rightarrow> None
      | Some v \<Rightarrow> if TrimSpace v = [] then None else Some (TrimSpace v))"
  by (simp add: newItem_def Let_def getAttrVal_lookupAttr split: option.split)

section \<open>Property values\<close>

lemma child_plain:
  assumes "nodeType c = ElementNode" "getAttrVal c ''itemprop'' \<noteq> []" "\<not> getAttr c ''itemscope''"
  shows "parseProperties_child up c item URL =
           bindProperty item (getAttrVal c ''itemprop'')
             (String (propertyValue up c (getAttrVal c ''itemprop'') URL))"
  using assms by simp

lemma url_name_nonempty: "p = ''url'' \<or> HasSuffix p ''Url'' \<Longrightarrow> p \<noteq> []"
  by (auto simp: HasSuffix_def)

lemma TrimSpace_Nil: "TrimSpace [] = []"
  by (simp add: TrimSpace_def)

section \<open>Text content\<close>

lemma getTextContent_f_preorder:
  "getTextContent_f n sb = fold scanStep (preorder n) sb"
  "getTextContent_children cs sb = fold scanStep (preorder_list cs) sb"
  by (induction n sb and cs sb rule: getTextContent_f_getTextContent_children.induct)
     (simp_all add: scanStep_def)

lemma fold_scanStep_nonempty:
  "sb \<noteq> [] \<Longrightarrow> fold scanStep ms sb = sb @ concat (map valueOf ms)"
  by (induction ms arbitrary: sb) (simp_all add: scanStep_def valueOf_def)

lemma fold_scanStep_empty:
  "fold scanStep ms [] =
     (case dropWhile (\<lambda>m. contribution m = []) ms of
        [] \<Rightarrow> []
      | m # rest \<Rightarrow> contribution m @ concat (map valueOf rest))"
proof (induction ms)
  case Nil
  then show ?case by simp
next
  case (Cons m ms)
  have step: "scanStep m [] = contribution m"
    by (simp add: scanStep_def contribution_def valueOf_def)
  show ?case
  proof (cases "contribution m = []")
    case True
    with Cons step show ?thesis by simp
  next
    case False
    with step show ?thesis by (simp add: fold_scanStep_nonempty)
  qed
qed

lemma getTextContent_spec: "getTextContent n = textContent_spec n"
  by (simp add: getTextContent_def textContent_spec_def getTextContent_f_preorder(1)
      fold_scanStep_empty)

section \<open>Looking through an element without a property name\<close>

lemma spliceAt_same:
  "nodeType (spliceAt n r) = nodeType n"
  "nodeAttr (spliceAt n r) = nodeAttr n"
  by (induction n r rule: spliceAt.induct) simp_all

lemma getAttrVal_spliceAt: "getAttrVal (spliceAt n r) key = getAttrVal n key"
  by (simp add: getAttrVal_def spliceAt_same)

lemma bindings_list_update:
  assumes "i < length cs" "bindings up URL x = bindings up URL (cs ! i)"
  shows "bindings_list up URL (cs[i := x]) = bindings_list up URL cs"
proof -
  have "bindings_list up URL (cs[i := x]) =
          bindings_list up URL (take i cs) @ bindings up URL x @ bindings_list up URL (drop (Suc i) cs)"
    using assms(1) by (simp add: upd_conv_take_nth_drop bindings_list_append)
  also have "\<dots> = bindings_list up URL (take i cs @ cs ! i # drop (Suc i) cs)"
    using assms(2) by (simp add: bindings_list_append)
  also have "\<dots> = bindings_list up URL cs"
    using assms(1) by (simp add: id_take_nth_drop [symmetric])
  finally show ?thesis .
qed

lemma spliceAt_bindings:
  "scannedAt n r = Some c \<Longrightarrow> nodeType c = ElementNode \<Longrightarrow> getAttrVal c ''itemprop'' = [] \<Longrightarrow>
   bindings_list up URL (children (spliceAt n r)) = bindings_list up URL (children n)"
proof (induction n r rule: scannedAt.induct)
  case (1 n)
  then show ?case by simp
next
  case (2 n i)
  obtain t d a cs where n: "n = Node t d a cs" by (cases n)
  from 2 n have i: "i < length cs" and c: "c = cs ! i"
    by (auto split: if_splits)
  from 2 have bc: "bindings up URL c = bindings_list up URL (children c)"
    by (simp add: bindings_children)
  have "bindings_list up URL cs =
          bindings_list up URL (take i cs @ cs ! i # drop (Suc i) cs)"
    using i by (simp add: id_take_nth_drop [symmetric])
  also have "\<dots> = bindings_list up URL (take i cs @ children (cs ! i) @ drop (Suc i) cs)"
    using bc c by (simp add: bindings_list_append)
  finally show ?case using n i by simp
next
  case (3 n i j r)
  obtain t d a cs where n: "n = Node t d a cs" by (cases n)
  let ?e = "cs ! i"
  from "3.prems"(1) n have i: "i < length cs" and e: "nodeType ?e = ElementNode"
    "getAttrVal ?e ''itemprop'' = []" and s: "scannedAt ?e (j # r) = Some c"
    by (auto split: if_splits)
  from "3.IH" n i e s "3.prems"(2,3)
  have ih: "bindings_list up URL (children (spliceAt ?e (j # r))) = bindings_list up URL (children ?e)"
    by simp
  have "bindings up URL (spliceAt ?e (j # r)) = bindings_list up URL (children (spliceAt ?e (j # r)))"
    using e by (simp add: bindings_children spliceAt_same getAttrVal_spliceAt)
  with ih e have "bindings up URL (spliceAt ?e (j # r)) = bindings up URL ?e"
    by (simp add: bindings_children)
  with i have "bindings_list up URL (cs[i := spliceAt ?e (j # r)]) = bindings_list up URL cs"
    by (rule bindings_list_update)
  with n i show ?case by simp
qed

lemma scannedAt_append:
  "scannedAt n r = Some c \<Longrightarrow> nodeType c = ElementNode \<Longrightarrow> getAttrVal c ''itemprop'' = [] \<Longrightarrow>
   scannedAt c r' = Some e \<Longrightarrow> scannedAt n (r @ r') = Some e"
proof (induction n r rule: scannedAt.induct)
  case (1 n)
  then show ?case by simp
next
  case (2 n i)
  then obtain k r'' where "r' = k # r''" by (cases r') auto
  with 2 show ?case by (auto split: if_splits)
next
  case (3 n i j r)
  then show ?case by (auto split: if_splits)
qed

section \<open>From a property element to the extracted item\<close>

lemma scanned_value_in_item:
  assumes "scannedAt n r = Some c" "nodeType c = ElementNode" "getAttrVal c ''itemprop'' \<noteq> []"
  shows "childValue up URL c
           \<in> set (slotValues (Properties (parseProperties up n (newItem n) URL)
                                (getAttrVal c ''itemprop'')))"
  using scannedAt_bindings [OF assms, of up URL] by (rule bound_value_in_slot)

lemma top_item_extracted:
  assumes "k < length (topItems doc)" "topItems doc ! k = (q, n)"
  shows "k < length (fst (W3CMicrodata up URL doc))"
    and "fst (W3CMicrodata up URL doc) ! k = parseProperties up n (newItem n) URL"
  using assms by (simp_all add: W3CMicrodata_topItems)

lemma plain_value_extracted:
  assumes "scannedAt n r = Some c" "nodeType c = ElementNode" "getAttrVal c ''itemprop'' = p"
    and "p \<noteq> []" "\<not> getAttr c ''itemscope''" "propertyValue up c p URL = x"
  shows "parseProperties_child up c item URL = bindProperty item p (String x)
         \<and> String x \<in> set (slotValues (Properties (parseProperties up n (newItem n) URL) p))
         \<and> (k < length (topItems doc) \<and> topItems doc ! k = (q, n) \<longrightarrow>
              k < length (fst (W3CMicrodata up URL doc))
              \<and> String x \<in> set (slotValues (Properties (fst (W3CMicrodata up URL doc) ! k) p)))"
proof -
  from assms(2,3,4,5,6) have body: "parseProperties_child up c item URL = bindProperty item p (String x)"
    using child_plain [of c up item URL] by simp
  from assms(5,3,6) have "childValue up URL c = String x"
    by (simp add: childValue_def)
  with scanned_value_in_item [of n r c up URL] assms(1,2,3,4)
  have in_item: "String x \<in> set (slotValues (Properties (parseProperties up n (newItem n) URL) p))"
    by simp
  have "k < length (topItems doc) \<and> topItems doc ! k = (q, n) \<longrightarrow>
           k < length (fst (W3CMicrodata up URL doc))
           \<and> String x \<in> set (slotValues (Properties (fst (W3CMicrodata up URL doc) ! k) p))"
    using in_item top_item_extracted [of k doc q n up URL] by simp
  with body in_item show ?thesis by simp
qed


section \<open>Accumulation of repeated property names\<close>

text \<open>
  Claim C5. The first value bound to a name is stored as it is; a second value, after a string
  or after an item, turns the slot into a two-element sequence; a later value is appended to the
  sequence. Hence the slot of a name in a finished item holds the values the scan bound to the
  name, in document order: nothing when there is none, the value itself when there is one, the
  sequence of all of them otherwise. The two \<^verbatim>\<open>color\<close> siblings give the sequence of
  \<^verbatim>\<open>yellow\<close> and \<^verbatim>\<open>green\<close>.
\<close>

theorem appendValue_document_order:
  "appendValue None v = v
   \<and> appendValue (Some (String s)) v = Slice [String s, v]
   \<and> appendValue (Some (ItemPtr i)) v = Slice [ItemPtr i, v]
   \<and> appendValue (Some (Slice vs)) v = Slice (vs @ [v])
   \<and> Properties (parseProperties up n (newItem n) URL) p =
       slot (valuesFor p (bindings_list up URL (children n)))
   \<and> W3CMicrodata up URL doc_colors =
       ([MicrodataItem [] None [''color'' \<mapsto> Slice [String ''yellow'', String ''green'']]], [])"
proof -
  have "W3CMicrodata up URL doc_colors =
       ([MicrodataItem [] None [''color'' \<mapsto> Slice [String ''yellow'', String ''green'']]], [])"
    by (simp add: doc_colors_def eval_defs)
  then show ?thesis
    by (simp add: Properties_parse)
qed

theorem appendValue_document_order_witness:
  "Properties (parseProperties parse_example (element ''div'' [attr ''itemscope'' []]
        [element ''span'' [attr ''itemprop'' ''color''] [txt_node ''yellow''],
         element ''span'' [attr ''itemprop'' ''color''] [txt_node ''green'']])
      (MicrodataItem [] None Map.empty) []) ''color''
   = Some (Slice [String ''yellow'', String ''green''])"
  using appendValue_document_order [of "String []" "[]" "MicrodataItem [] None Map.empty" "[]"
      parse_example "element ''div'' [attr ''itemscope'' []]
        [element ''span'' [attr ''itemprop'' ''color''] [txt_node ''yellow''],
         element ''span'' [attr ''itemprop'' ''color''] [txt_node ''green'']]" "[]" "''color''"]
  by (simp add: valuesFor_def eval_defs)

section \<open>Documents without items, and the error sequence\<close>

lemma no_itemscope_no_items:
  "\<not> hasItemscope n \<Longrightarrow> topItems n = []"
  "\<not> hasItemscope_list cs \<Longrightarrow> topItems_list i cs = []"
  by (induction n and cs arbitrary: and i rule: hasItemscope_hasItemscope_list.induct) auto

text \<open>
  Claim C7. A document in which no element carries \<^verbatim>\<open>itemscope\<close> gives no item and no
  error, and the error sequence is empty for every document and base URL.
\<close>

theorem no_itemscope_empty_result:
  "(\<not> hasItemscope doc \<longrightarrow> W3CMicrodata up URL doc = ([], []))
   \<and> snd (W3CMicrodata up URL doc) = []"
  by (simp add: W3CMicrodata_topItems no_itemscope_no_items(1))

theorem no_itemscope_empty_result_witness:
  "\<not> hasItemscope doc_plain \<and> W3CMicrodata parse_example ''http://host.example/base/page'' doc_plain = ([], [])"
proof -
  have h: "\<not> hasItemscope doc_plain"
    by (simp add: doc_plain_def eval_defs)
  with no_itemscope_empty_result [of doc_plain parse_example "''http://host.example/base/page''"]
  show ?thesis by simp
qed

section \<open>Nested items\<close>

text \<open>
  Claim C2, as stated, fails. In \<open>doc_hidden\<close> the element at the path \<open>[0, 0, 0]\<close> has a
  property name and \<^verbatim>\<open>itemscope\<close> and lies inside the item, below a property element
  that starts no item of its own. The scan takes the text content of that property element and
  does not look below it: the only item has the single property \<^verbatim>\<open>a\<close>, a string.
\<close>

theorem nested_item_hidden_counterexample:
  "nodeAt doc_hidden [0, 0, 0] = Some elem_hidden
   \<and> getAttrVal elem_hidden ''itemprop'' = ''b'' \<and> getAttr elem_hidden ''itemscope''
   \<and> W3CMicrodata parse_example [] doc_hidden =
       ([MicrodataItem [] None [''a'' \<mapsto> String ''Bob'']], [])"
  by (simp add: doc_hidden_def elem_hidden_def eval_defs)

text \<open>
  Claim C2, amended. Let \<open>n\<close> be an element with \<^verbatim>\<open>itemscope\<close> at the path \<open>q\<close> of the
  document, and \<open>c\<close> an element with a non-empty property name and \<^verbatim>\<open>itemscope\<close> that the
  property scan of \<open>n\<close> visits at the path \<open>r\<close> below \<open>n\<close>. Then the item built from \<open>c\<close> and its
  subtree is among the values of that name in the item of \<open>n\<close>, the position of \<open>c\<close> is not among
  those of the top-level items, and the result holds exactly the items of these positions.
\<close>

theorem nested_item_bound:
  assumes "nodeAt doc q = Some n" "nodeType n = ElementNode" "getAttr n ''itemscope''"
    and "scannedAt n r = Some c" "nodeType c = ElementNode"
    and "getAttrVal c ''itemprop'' \<noteq> []" "getAttr c ''itemscope''"
  shows "ItemPtr (parseProperties up c (newItem c) URL)
           \<in> set (slotValues (Properties (parseProperties up n (newItem n) URL)
                                (getAttrVal c ''itemprop'')))
         \<and> q @ r \<notin> fst ` set (topItems doc)
         \<and> fst (W3CMicrodata up URL doc) =
             map (\<lambda>e. parseProperties up (snd e) (newItem (snd e)) URL) (topItems doc)"
proof -
  from assms(7) have "childValue up URL c = ItemPtr (parseProperties up c (newItem c) URL)"
    by (simp add: childValue_def)
  with scannedAt_bindings [OF assms(4,5,6), of up URL]
  have "(getAttrVal c ''itemprop'', ItemPtr (parseProperties up c (newItem c) URL))
          \<in> set (bindings_list up URL (children n))"
    by simp
  then have bound: "ItemPtr (parseProperties up c (newItem c) URL)
           \<in> set (slotValues (Properties (parseProperties up n (newItem n) URL)
                                (getAttrVal c ''itemprop'')))"
    by (rule bound_value_in_slot)
  from assms(4) have "r \<noteq> []" by (rule scannedAt_nonempty)
  with assms(1,2,3) have "q @ r \<notin> fst ` set (topItems doc)"
    by (rule not_top_below_scope)
  with bound show ?thesis
    by (simp add: W3CMicrodata_topItems)
qed

theorem nested_item_bound_witness:
  "nodeAt doc_person [0] = Some elem_person \<and> scannedAt elem_person [1] = Some elem_address
   \<and> Properties (parseProperties parse_example elem_person (newItem elem_person) []) ''address''
       = Some (ItemPtr (MicrodataItem ''http://schema.org/PostalAddress'' None
                          [''city'' \<mapsto> String ''Oslo'']))
   \<and> [0, 1] \<notin> fst ` set (topItems doc_person)
   \<and> length (fst (W3CMicrodata parse_example [] doc_person)) = 1"
proof -
  have h: "nodeAt doc_person [0] = Some elem_person" "nodeType elem_person = ElementNode"
    "getAttr elem_person ''itemscope''" "scannedAt elem_person [1] = Some elem_address"
    "nodeType elem_address = ElementNode" "getAttrVal elem_address ''itemprop'' \<noteq> []"
    "getAttr elem_address ''itemscope''"
    by (simp_all add: doc_person_def elem_person_def elem_address_def eval_defs)
  have v: "Properties (parseProperties parse_example elem_person (newItem elem_person) []) ''address''
       = Some (ItemPtr (MicrodataItem ''http://schema.org/PostalAddress'' None
                          [''city'' \<mapsto> String ''Oslo'']))"
    by (simp add: elem_person_def elem_address_def eval_defs)
  have l: "length (fst (W3CMicrodata parse_example [] doc_person)) = 1"
    by (simp add: doc_person_def elem_person_def elem_address_def eval_defs)
  from nested_item_bound [OF h, of parse_example "[]"] h(1,4) v l show ?thesis
    by simp
qed

section \<open>The id of an item\<close>

text \<open>
  Claim C4, as stated, fails: \<^verbatim>\<open>getAttrVal\<close> trims the attribute and reads an absent one
  as the empty string, and the id is set only when that string is not empty. An element with
  \<^verbatim>\<open>itemid=""\<close> gives an item without id, and \<^verbatim>\<open>itemid=" urn:x "\<close> gives the id
  \<^verbatim>\<open>urn:x\<close>.
\<close>

theorem itemid_counterexample:
  "map ID (fst (W3CMicrodata parse_example [] doc_empty_id)) = [None]
   \<and> map ID (fst (W3CMicrodata parse_example [] doc_spaced_id)) = [Some ''urn:x'']"
  by (simp add: doc_empty_id_def doc_spaced_id_def eval_defs)

text \<open>
  Claim C4, amended. The item built for an element, at top level by \<^verbatim>\<open>parseNode\<close> or
  nested by \<^verbatim>\<open>parseProperties\<close>, has an id exactly when the element has an
  \<^verbatim>\<open>itemid\<close> attribute whose value is not empty after trimming white space, and the id is
  then the trimmed value.
\<close>

theorem itemid_trimmed:
  "ID (parseProperties up n (newItem n) URL) =
     (case lookupAttr (nodeAttr n) ''itemid'' of
        None \<Rightarrow> None
      | Some v \<Rightarrow> if TrimSpace v = [] then None else Some (TrimSpace v))
   \<and> (nodeType n = ElementNode \<and> getAttr n ''itemscope'' \<longrightarrow>
        parseNode up URL n items = items @ [parseProperties up n (newItem n) URL])
   \<and> (nodeType n = ElementNode \<and> getAttr n ''itemscope'' \<and> getAttrVal n ''itemprop'' \<noteq> [] \<longrightarrow>
        parseProperties_child up n item URL =
          bindProperty item (getAttrVal n ''itemprop'')
            (ItemPtr (parseProperties up n (newItem n) URL)))"
proof -
  have "nodeType n = ElementNode \<and> getAttr n ''itemscope'' \<longrightarrow>
        parseNode up URL n items = items @ [parseProperties up n (newItem n) URL]"
    by (cases n) auto
  then show ?thesis
    by (simp add: ID_parseProperties ID_newItem)
qed

theorem itemid_trimmed_witness:
  "ID (parseProperties parse_example
         (element ''div'' [attr ''itemscope'' [], attr ''itemid'' '' urn:x ''] [])
         (newItem (element ''div'' [attr ''itemscope'' [], attr ''itemid'' '' urn:x ''] [])) [])
     = Some ''urn:x''
   \<and> parseNode parse_example []
         (element ''div'' [attr ''itemscope'' [], attr ''itemid'' '' urn:x ''] []) []
     = [MicrodataItem [] (Some ''urn:x'') Map.empty]"
  using itemid_trimmed [of parse_example
      "element ''div'' [attr ''itemscope'' [], attr ''itemid'' '' urn:x ''] []" "[]" "[]"]
  by (simp add: eval_defs)

section \<open>Text content of a property element\<close>

text \<open>
  Claim C1, as stated, fails: a property element that carries \<^verbatim>\<open>itemscope\<close> matches
  neither the datetime rule nor the URL rule, and its value is a nested item, not its text
  content. In \<open>doc_person\<close> the text content of the \<^verbatim>\<open>address\<close> element is
  \<^verbatim>\<open>Oslo\<close>, and the value of the property is an item.
\<close>

theorem text_content_counterexample:
  "getAttrVal elem_address ''itemprop'' = ''address'' \<and> getAttrVal elem_address ''datetime'' = []
   \<and> getTextContent elem_address = ''Oslo''
   \<and> W3CMicrodata parse_example [] doc_person =
       ([MicrodataItem ''http://schema.org/Person'' None
           [''name'' \<mapsto> String ''Ann'',
            ''address'' \<mapsto> ItemPtr (MicrodataItem ''http://schema.org/PostalAddress'' None
                                      [''city'' \<mapsto> String ''Oslo''])]], [])"
  by (simp add: doc_person_def elem_person_def elem_address_def eval_defs)

text \<open>
  Claim C1, amended. Let \<open>c\<close> be an element with a non-empty property name that the property
  scan of an element \<open>n\<close> visits, that starts no item of its own, whose trimmed
  \<^verbatim>\<open>datetime\<close> attribute is empty or missing and whose name is neither \<^verbatim>\<open>url\<close> nor
  ends in \<^verbatim>\<open>Url\<close>. The value bound for \<open>c\<close> is its text content: in the pre-order scan of
  the subtree of \<open>c\<close>, the first non-empty text node or \<^verbatim>\<open>value\<close> attribute, followed by
  the \<^verbatim>\<open>value\<close> attributes of all later elements (later text nodes are skipped), the
  whole trimmed of surrounding white space. That string is among the values of the name in the
  item built for \<open>n\<close>, and, when \<open>n\<close> is the element of the \<open>k\<close>-th top-level item, in the
  \<open>k\<close>-th item of the result.
\<close>

theorem text_content_value:
  assumes "scannedAt n r = Some c" "nodeType c = ElementNode" "getAttrVal c ''itemprop'' = p"
    and "p \<noteq> []" "\<not> getAttr c ''itemscope''" "getAttrVal c ''datetime'' = []"
    and "\<not> (p = ''url'' \<or> HasSuffix p ''Url'')"
  shows "parseProperties_child up c item URL = bindProperty item p (String (textContent_spec c))
         \<and> String (textContent_spec c)
             \<in> set (slotValues (Properties (parseProperties up n (newItem n) URL) p))
         \<and> (k < length (topItems doc) \<and> topItems doc ! k = (q, n) \<longrightarrow>
              k < length (fst (W3CMicrodata up URL doc))
              \<and> String (textContent_spec c)
                  \<in> set (slotValues (Properties (fst (W3CMicrodata up URL doc) ! k) p)))"
proof -
  from assms(6,7) have "propertyValue up c p URL = textContent_spec c"
    by (simp add: propertyValue_def Let_def getTextContent_spec)
  from plain_value_extracted [OF assms(1,2,3,4,5) this] show ?thesis .
qed

theorem text_content_value_witness:
  "topItems doc_name ! 0 = ([0], elem_item_name) \<and> scannedAt elem_item_name [0] = Some elem_name
   \<and> textContent_spec elem_name = ''Ann X''
   \<and> String ''Ann X''
       \<in> set (slotValues (Properties (fst (W3CMicrodata parse_example [] doc_name) ! 0) ''name''))
   \<and> W3CMicrodata parse_example [] doc_name =
       ([MicrodataItem [] None [''name'' \<mapsto> String ''Ann X'']], [])"
proof -
  have h: "scannedAt elem_item_name [0] = Some elem_name" "nodeType elem_name = ElementNode"
    "getAttrVal elem_name ''itemprop'' = ''name''" "''name'' \<noteq> []"
    "\<not> getAttr elem_name ''itemscope''" "getAttrVal elem_name ''datetime'' = []"
    "\<not> (''name'' = ''url'' \<or> HasSuffix ''name'' ''Url'')"
    by (simp_all add: elem_item_name_def elem_name_def eval_defs)
  have t: "0 < length (topItems doc_name)" "topItems doc_name ! 0 = ([0], elem_item_name)"
    by (simp_all add: doc_name_def elem_item_name_def element_def document_def getAttr_def attr_def)
  have s: "textContent_spec elem_name = ''Ann X''"
    by (simp add: elem_name_def textContent_spec_def contribution_def valueOf_def eval_defs)
  have w: "W3CMicrodata parse_example [] doc_name =
       ([MicrodataItem [] None [''name'' \<mapsto> String ''Ann X'']], [])"
    by (simp add: doc_name_def elem_item_name_def elem_name_def eval_defs)
  from text_content_value [OF h, where k = 0 and doc = doc_name and q = "[0]"
      and up = parse_example and URL = "[]"] t s
  have "String ''Ann X''
       \<in> set (slotValues (Properties (fst (W3CMicrodata parse_example [] doc_name) ! 0) ''name''))"
    by simp
  with h(1) t(2) s w show ?thesis by simp
qed

section \<open>The datetime attribute\<close>

text \<open>
  Claim C6, as stated, fails: the rule applies only when the trimmed attribute is not empty.
  An element with \<^verbatim>\<open>datetime=""\<close> and the text \<^verbatim>\<open>hello\<close> gets the value
  \<^verbatim>\<open>hello\<close>, not the empty string.
\<close>

theorem datetime_empty_counterexample:
  "lookupAttr (nodeAttr elem_empty_datetime) ''datetime'' = Some []
   \<and> W3CMicrodata parse_example [] doc_empty_datetime =
       ([MicrodataItem [] None [''date'' \<mapsto> String ''hello'']], [])"
  by (simp add: doc_empty_datetime_def elem_empty_datetime_def eval_defs)

text \<open>
  Claim C6, amended. Let \<open>c\<close> be an element with a non-empty property name that the property
  scan of an element \<open>n\<close> visits and that starts no item of its own. When \<open>c\<close> has a
  \<^verbatim>\<open>datetime\<close> attribute whose value is not empty after trimming, the value bound for
  \<open>c\<close> is the trimmed attribute, whatever the name, the \<^verbatim>\<open>href\<close> and the content of the
  element are; it is among the values of the name in the item built for \<open>n\<close>, and, when \<open>n\<close> is
  the element of the \<open>k\<close>-th top-level item, in the \<open>k\<close>-th item of the result. When the
  \<^verbatim>\<open>datetime\<close> attribute is missing, empty or blank, the value is the one the URL rule
  gives for a name that is \<^verbatim>\<open>url\<close> or ends in \<^verbatim>\<open>Url\<close>, and the text content
  otherwise.
\<close>

theorem datetime_precedence:
  assumes "scannedAt n r = Some c" "nodeType c = ElementNode" "getAttrVal c ''itemprop'' = p"
    and "p \<noteq> []" "\<not> getAttr c ''itemscope''"
  shows "(lookupAttr (nodeAttr c) ''datetime'' = Some v \<and> TrimSpace v \<noteq> [] \<longrightarrow>
            parseProperties_child up c item URL = bindProperty item p (String (TrimSpace v))
            \<and> String (TrimSpace v)
                \<in> set (slotValues (Properties (parseProperties up n (newItem n) URL) p))
            \<and> (k < length (topItems doc) \<and> topItems doc ! k = (q, n) \<longrightarrow>
                 k < length (fst (W3CMicrodata up URL doc))
                 \<and> String (TrimSpace v)
                     \<in> set (slotValues (Properties (fst (W3CMicrodata up URL doc) ! k) p))))
         \<and> (lookupAttr (nodeAttr c) ''datetime'' = None
              \<or> (lookupAttr (nodeAttr c) ''datetime'' = Some v \<and> TrimSpace v = []) \<longrightarrow>
            parseProperties_child up c item URL =
              bindProperty item p
                (String (if p = ''url'' \<or> HasSuffix p ''Url'' then
                           (if HasPrefix (getAttrVal c ''href'') ''//''
                               \<or> HasPrefix (getAttrVal c ''href'') ''http://''
                               \<or> HasPrefix (getAttrVal c ''href'') ''https://''
                            then getAttrVal c ''href''
                            else baseURL up URL @ getAttrVal c ''href'')
                         else textContent_spec c)))"
proof -
  have present: "parseProperties_child up c item URL = bindProperty item p (String (TrimSpace v))
            \<and> String (TrimSpace v)
                \<in> set (slotValues (Properties (parseProperties up n (newItem n) URL) p))
            \<and> (k < length (topItems doc) \<and> topItems doc ! k = (q, n) \<longrightarrow>
                 k < length (fst (W3CMicrodata up URL doc))
                 \<and> String (TrimSpace v)
                     \<in> set (slotValues (Properties (fst (W3CMicrodata up URL doc) ! k) p)))"
    if d: "lookupAttr (nodeAttr c) ''datetime'' = Some v" "TrimSpace v \<noteq> []"
  proof -
    from d have "propertyValue up c p URL = TrimSpace v"
      by (simp add: propertyValue_def Let_def getAttrVal_lookupAttr)
    from plain_value_extracted [OF assms this] show ?thesis .
  qed
  have absent: "parseProperties_child up c item URL =
              bindProperty item p
                (String (if p = ''url'' \<or> HasSuffix p ''Url'' then
                           (if HasPrefix (getAttrVal c ''href'') ''//''
                               \<or> HasPrefix (getAttrVal c ''href'') ''http://''
                               \<or> HasPrefix (getAttrVal c ''href'') ''https://''
                            then getAttrVal c ''href''
                            else baseURL up URL @ getAttrVal c ''href'')
                         else textContent_spec c))"
    if d: "lookupAttr (nodeAttr c) ''datetime'' = None
              \<or> (lookupAttr (nodeAttr c) ''datetime'' = Some v \<and> TrimSpace v = [])"
  proof -
    from d have "getAttrVal c ''datetime'' = []"
      by (auto simp: getAttrVal_lookupAttr)
    then have "propertyValue up c p URL =
        (if p = ''url'' \<or> HasSuffix p ''Url'' then
           (if HasPrefix (getAttrVal c ''href'') ''//''
               \<or> HasPrefix (getAttrVal c ''href'') ''http://''
               \<or> HasPrefix (getAttrVal c ''href'') ''https://''
            then getAttrVal c ''href''
            else baseURL up URL @ getAttrVal c ''href'')
         else textContent_spec c)"
      by (simp add: propertyValue_def Let_def getTextContent_spec)
    from plain_value_extracted [OF assms this, where item = item] show ?thesis by simp
  qed
  from present absent show ?thesis by blast
qed

theorem datetime_precedence_witness:
  "topItems doc_url_datetime ! 0 = ([0], elem_item_url_datetime)
   \<and> scannedAt elem_item_url_datetime [0] = Some elem_url_datetime
   \<and> lookupAttr (nodeAttr elem_url_datetime) ''datetime'' = Some '' 2020-01-01 ''
   \<and> String ''2020-01-01''
       \<in> set (slotValues (Properties
             (fst (W3CMicrodata parse_example ''http://host.example/base/page'' doc_url_datetime) ! 0)
             ''url''))
   \<and> W3CMicrodata parse_example ''http://host.example/base/page'' doc_url_datetime =
       ([MicrodataItem [] None [''url'' \<mapsto> String ''2020-01-01'']], [])"
proof -
  have h: "scannedAt elem_item_url_datetime [0] = Some elem_url_datetime"
    "nodeType elem_url_datetime = ElementNode" "getAttrVal elem_url_datetime ''itemprop'' = ''url''"
    "''url'' \<noteq> []" "\<not> getAttr elem_url_datetime ''itemscope''"
    by (simp_all add: elem_item_url_datetime_def elem_url_datetime_def eval_defs)
  have d: "lookupAttr (nodeAttr elem_url_datetime) ''datetime'' = Some '' 2020-01-01 ''"
    "TrimSpace '' 2020-01-01 '' = ''2020-01-01''"
    by (simp_all add: elem_url_datetime_def eval_defs)
  have t: "0 < length (topItems doc_url_datetime)"
    "topItems doc_url_datetime ! 0 = ([0], elem_item_url_datetime)"
    by (simp_all add: doc_url_datetime_def elem_item_url_datetime_def element_def document_def
        getAttr_def attr_def)
  have w: "W3CMicrodata parse_example ''http://host.example/base/page'' doc_url_datetime =
       ([MicrodataItem [] None [''url'' \<mapsto> String ''2020-01-01'']], [])"
    by (simp add: doc_url_datetime_def elem_url_datetime_def eval_defs)
  from datetime_precedence [OF h, where v = "'' 2020-01-01 ''" and k = 0
      and doc = doc_url_datetime and q = "[0]" and up = parse_example
      and URL = "''http://host.example/base/page''"] d t
  have "String ''2020-01-01''
       \<in> set (slotValues (Properties
             (fst (W3CMicrodata parse_example ''http://host.example/base/page'' doc_url_datetime) ! 0)
             ''url''))"
    by simp
  with h(1) d(1) t(2) w show ?thesis by simp
qed

section \<open>URL properties\<close>

text \<open>
  Claim C3, as stated, fails on two counts. The \<^verbatim>\<open>href\<close> is read through
  \<^verbatim>\<open>getAttrVal\<close>, which trims it: an absolute \<^verbatim>\<open>href\<close> with a trailing blank is
  not used verbatim. And a non-empty \<^verbatim>\<open>datetime\<close> attribute on the same element wins
  over the \<^verbatim>\<open>href\<close>.
\<close>

theorem url_href_counterexample:
  "HasPrefix ''http://a.example/x '' ''http://''
   \<and> W3CMicrodata parse_example ''http://host.example/base/page'' doc_url_spaced =
       ([MicrodataItem [] None [''url'' \<mapsto> String ''http://a.example/x'']], [])
   \<and> lookupAttr (nodeAttr elem_url_datetime) ''href'' = Some ''/path''
   \<and> W3CMicrodata parse_example ''http://host.example/base/page'' doc_url_datetime =
       ([MicrodataItem [] None [''url'' \<mapsto> String ''2020-01-01'']], [])"
  by (simp add: doc_url_spaced_def doc_url_datetime_def elem_url_datetime_def eval_defs)

text \<open>
  Claim C3, amended. Let \<open>c\<close> be an element that starts no item of its own, whose trimmed
  \<^verbatim>\<open>datetime\<close> attribute is empty or missing, whose property name is \<^verbatim>\<open>url\<close> or
  ends in \<^verbatim>\<open>Url\<close>, and which has an \<^verbatim>\<open>href\<close> attribute. The value bound to the name
  is the trimmed \<^verbatim>\<open>href\<close> when that begins with \<^verbatim>\<open>//\<close>, \<^verbatim>\<open>http://\<close> or
  \<^verbatim>\<open>https://\<close>, and otherwise the base string followed by the trimmed \<^verbatim>\<open>href\<close>; the
  base string is scheme, \<^verbatim>\<open>://\<close> and host of the parsed base URL, and empty when the base
  URL does not parse. With the base URL \<^verbatim>\<open>http://host.example/base/page\<close>, parsed to the
  scheme \<^verbatim>\<open>http\<close> and the host \<^verbatim>\<open>host.example\<close>, the \<^verbatim>\<open>href\<close> \<^verbatim>\<open>/path\<close> gives
  \<^verbatim>\<open>http://host.example/path\<close>.
\<close>

theorem url_href_resolution:
  assumes "nodeType c = ElementNode" "\<not> getAttr c ''itemscope''" "getAttrVal c ''datetime'' = []"
    and "getAttrVal c ''itemprop'' = p" "p = ''url'' \<or> HasSuffix p ''Url''"
    and "lookupAttr (nodeAttr c) ''href'' = Some h"
  shows "parseProperties_child up c item URL =
           bindProperty item p
             (String (if HasPrefix (TrimSpace h) ''//'' \<or> HasPrefix (TrimSpace h) ''http://''
                         \<or> HasPrefix (TrimSpace h) ''https://''
                      then TrimSpace h else baseURL up URL @ TrimSpace h))
         \<and> baseURL up URL =
             (case up URL of None \<Rightarrow> [] | Some u \<Rightarrow> Scheme u @ ''://'' @ Host u)
         \<and> (up ''http://host.example/base/page'' = Some \<lparr>Scheme = ''http'', Host = ''host.example''\<rparr>
              \<longrightarrow> W3CMicrodata up ''http://host.example/base/page'' doc_url =
                    ([MicrodataItem [] None [''url'' \<mapsto> String ''http://host.example/path'']], []))"
proof -
  from assms(5) have p: "p \<noteq> []" by (rule url_name_nonempty)
  from assms(3,5,6) have "propertyValue up c p URL =
      (if HasPrefix (TrimSpace h) ''//'' \<or> HasPrefix (TrimSpace h) ''http://''
          \<or> HasPrefix (TrimSpace h) ''https://''
       then TrimSpace h else baseURL up URL @ TrimSpace h)"
    by (simp add: propertyValue_def Let_def getAttrVal_lookupAttr)
  with child_plain [of c up item URL] assms(1,2,4) p
  have first: "parseProperties_child up c item URL =
           bindProperty item p
             (String (if HasPrefix (TrimSpace h) ''//'' \<or> HasPrefix (TrimSpace h) ''http://''
                         \<or> HasPrefix (TrimSpace h) ''https://''
                      then TrimSpace h else baseURL up URL @ TrimSpace h))"
    by simp
  have example: "W3CMicrodata up ''http://host.example/base/page'' doc_url =
          ([MicrodataItem [] None [''url'' \<mapsto> String ''http://host.example/path'']], [])"
    if "up ''http://host.example/base/page'' = Some \<lparr>Scheme = ''http'', Host = ''host.example''\<rparr>"
    using that
    by (simp add: doc_url_def elem_url_def W3CMicrodata_def parseW3CMicrodata_def attr_def
        txt_node_def element_def document_def getAttr_def getAttrVal_def newItem_def
        bindProperty_def propertyValue_def baseURL_def getTextContent_def HasSuffix_def
        HasPrefix_def TrimSpace_def unicodeSpaces_def asciiSpace_def Let_def)
  from first example show ?thesis
    by (simp add: baseURL_def)
qed

theorem url_href_resolution_witness:
  "Properties (parseProperties_child parse_example elem_url (MicrodataItem [] None Map.empty)
                 ''http://host.example/base/page'') ''url''
     = Some (String ''http://host.example/path'')
   \<and> W3CMicrodata parse_example ''http://host.example/base/page'' doc_url =
       ([MicrodataItem [] None [''url'' \<mapsto> String ''http://host.example/path'']], [])"
proof -
  have h: "nodeType elem_url = ElementNode" "\<not> getAttr elem_url ''itemscope''"
    "getAttrVal elem_url ''datetime'' = []" "getAttrVal elem_url ''itemprop'' = ''url''"
    "''url'' = ''url'' \<or> HasSuffix ''url'' ''Url''"
    "lookupAttr (nodeAttr elem_url) ''href'' = Some ''/path''"
    by (simp_all add: elem_url_def eval_defs)
  have p: "parse_example ''http://host.example/base/page''
             = Some \<lparr>Scheme = ''http'', Host = ''host.example''\<rparr>"
    by (simp add: parse_example_def)
  from url_href_resolution [OF h, of parse_example "MicrodataItem [] None Map.empty"
      "''http://host.example/base/page''"] p
  show ?thesis by (simp add: eval_defs)
qed

text \<open>
  Claim C10, as stated, fails on two counts. An element with the property name
  \<^verbatim>\<open>url\<close>, without \<^verbatim>\<open>datetime\<close> and \<^verbatim>\<open>href\<close>, that carries
  \<^verbatim>\<open>itemscope\<close> gets a nested item as its value. And when \<^verbatim>\<open>url.Parse\<close> fails on
  the base URL, as it does on \<^verbatim>\<open>:foo\<close>, the value is the empty string: there is no
  scheme and no host to derive it from.
\<close>

theorem url_without_href_counterexample:
  "W3CMicrodata parse_example ''http://host.example/base/page'' doc_url_scope =
     ([MicrodataItem [] None [''url'' \<mapsto> ItemPtr (MicrodataItem [] None Map.empty)]], [])
   \<and> parse_example '':foo'' = None
   \<and> W3CMicrodata parse_example '':foo'' doc_url_bare =
       ([MicrodataItem [] None [''url'' \<mapsto> String []]], [])"
  by (simp add: doc_url_scope_def doc_url_bare_def elem_item_url_bare_def elem_url_bare_def
      eval_defs)

text \<open>
  Claim C10, amended. Let \<open>c\<close> be an element that the property scan of an element \<open>n\<close>
  visits, that starts no item of its own, without a \<^verbatim>\<open>datetime\<close> attribute, whose
  property name is \<^verbatim>\<open>url\<close> or ends in \<^verbatim>\<open>Url\<close>, and whose \<^verbatim>\<open>href\<close> attribute is
  missing or empty. The value bound for \<open>c\<close> is the base string alone, which is scheme,
  \<^verbatim>\<open>://\<close> and host of the parsed base URL, and empty when the base URL does not parse; it
  is among the values of the name in the item built for \<open>n\<close>, and, when \<open>n\<close> is the element of
  the \<open>k\<close>-th top-level item, in the \<open>k\<close>-th item of the result. And for such a name the value
  of an element that starts no item never depends on its content: two elements with the same
  attributes and different children get the same value.
\<close>

theorem url_without_href:
  assumes "scannedAt n r = Some c" "nodeType c = ElementNode" "getAttrVal c ''itemprop'' = p"
    and "p = ''url'' \<or> HasSuffix p ''Url''" "\<not> getAttr c ''itemscope''"
    and "lookupAttr (nodeAttr c) ''datetime'' = None"
    and "lookupAttr (nodeAttr c) ''href'' = None \<or> lookupAttr (nodeAttr c) ''href'' = Some []"
  shows "parseProperties_child up c item URL = bindProperty item p (String (baseURL up URL))
         \<and> String (baseURL up URL)
             \<in> set (slotValues (Properties (parseProperties up n (newItem n) URL) p))
         \<and> (k < length (topItems doc) \<and> topItems doc ! k = (q, n) \<longrightarrow>
              k < length (fst (W3CMicrodata up URL doc))
              \<and> String (baseURL up URL)
                  \<in> set (slotValues (Properties (fst (W3CMicrodata up URL doc) ! k) p)))
         \<and> baseURL up URL =
             (case up URL of None \<Rightarrow> [] | Some u \<Rightarrow> Scheme u @ ''://'' @ Host u)
         \<and> propertyValue up (Node t d a cs) p URL = propertyValue up (Node t d a cs') p URL"
proof -
  from assms(4) have p: "p \<noteq> []" by (rule url_name_nonempty)
  from assms(7) have href: "getAttrVal c ''href'' = []"
    by (auto simp: getAttrVal_lookupAttr TrimSpace_Nil)
  from assms(6) have "getAttrVal c ''datetime'' = []"
    by (simp add: getAttrVal_lookupAttr)
  with href assms(4) have "propertyValue up c p URL = baseURL up URL"
    by (simp add: propertyValue_def Let_def HasPrefix_def)
  from plain_value_extracted [OF assms(1,2,3) p assms(5) this]
  have first: "parseProperties_child up c item URL = bindProperty item p (String (baseURL up URL))
         \<and> String (baseURL up URL)
             \<in> set (slotValues (Properties (parseProperties up n (newItem n) URL) p))
         \<and> (k < length (topItems doc) \<and> topItems doc ! k = (q, n) \<longrightarrow>
              k < length (fst (W3CMicrodata up URL doc))
              \<and> String (baseURL up URL)
                  \<in> set (slotValues (Properties (fst (W3CMicrodata up URL doc) ! k) p)))"
    by simp
  from assms(4)
  have "propertyValue up (Node t d a cs) p URL = propertyValue up (Node t d a cs') p URL"
    by (simp add: propertyValue_def Let_def getAttrVal_def)
  with first show ?thesis
    by (simp add: baseURL_def)
qed

theorem url_without_href_witness:
  "topItems doc_url_bare ! 0 = ([0], elem_item_url_bare)
   \<and> scannedAt elem_item_url_bare [0] = Some elem_url_bare
   \<and> getTextContent elem_url_bare = ''click''
   \<and> String ''http://host.example''
       \<in> set (slotValues (Properties
             (fst (W3CMicrodata parse_example ''http://host.example/base/page'' doc_url_bare) ! 0)
             ''url''))
   \<and> W3CMicrodata parse_example ''http://host.example/base/page'' doc_url_bare =
       ([MicrodataItem [] None [''url'' \<mapsto> String ''http://host.example'']], [])"
proof -
  have h: "scannedAt elem_item_url_bare [0] = Some elem_url_bare"
    "nodeType elem_url_bare = ElementNode" "getAttrVal elem_url_bare ''itemprop'' = ''url''"
    "''url'' = ''url'' \<or> HasSuffix ''url'' ''Url''" "\<not> getAttr elem_url_bare ''itemscope''"
    "lookupAttr (nodeAttr elem_url_bare) ''datetime'' = None"
    "lookupAttr (nodeAttr elem_url_bare) ''href'' = None
       \<or> lookupAttr (nodeAttr elem_url_bare) ''href'' = Some []"
    by (simp_all add: elem_item_url_bare_def elem_url_bare_def eval_defs)
  have t: "0 < length (topItems doc_url_bare)"
    "topItems doc_url_bare ! 0 = ([0], elem_item_url_bare)"
    by (simp_all add: doc_url_bare_def elem_item_url_bare_def element_def document_def
        getAttr_def attr_def)
  have b: "baseURL parse_example ''http://host.example/base/page'' = ''http://host.example''"
    by (simp add: baseURL_def parse_example_def)
  have c: "getTextContent elem_url_bare = ''click''"
    by (simp add: elem_url_bare_def eval_defs)
  have w: "W3CMicrodata parse_example ''http://host.example/base/page'' doc_url_bare =
       ([MicrodataItem [] None [''url'' \<mapsto> String ''http://host.example'']], [])"
    by (simp add: doc_url_bare_def elem_item_url_bare_def elem_url_bare_def eval_defs)
  from url_without_href [OF h, where k = 0 and doc = doc_url_bare and q = "[0]"
      and up = parse_example and URL = "''http://host.example/base/page''"
      and item = "MicrodataItem [] None Map.empty" and t = ElementNode and d = "[]"
      and a = "[]" and cs = "[]" and cs' = "[]"] t
  have "String (baseURL parse_example ''http://host.example/base/page'')
       \<in> set (slotValues (Properties
             (fst (W3CMicrodata parse_example ''http://host.example/base/page'' doc_url_bare) ! 0)
             ''url''))"
    by blast
  with b have "String ''http://host.example''
       \<in> set (slotValues (Properties
             (fst (W3CMicrodata parse_example ''http://host.example/base/page'' doc_url_bare) ! 0)
             ''url''))"
    by simp
  with h(1) t(2) c w show ?thesis by simp
qed

section \<open>Scoped elements without a property name\<close>

text \<open>
  Claim C9, as stated, fails: not every descendant with a property name is attached. In
  \<open>doc_wrapped_hidden\<close> the element at the path \<open>[0, 0]\<close> carries \<^verbatim>\<open>itemscope\<close> and no
  property name; its descendant \<open>elem_b\<close> at \<open>[0, 0, 0, 0]\<close> has the property name
  \<^verbatim>\<open>b\<close> and lies below the property element \<^verbatim>\<open>a\<close>. The only item has the single
  property \<^verbatim>\<open>a\<close>; nothing is bound to \<^verbatim>\<open>b\<close>.
\<close>

theorem unnamed_scope_counterexample:
  "nodeAt doc_wrapped_hidden [0, 0, 0, 0] = Some elem_b \<and> getAttrVal elem_b ''itemprop'' = ''b''
   \<and> W3CMicrodata parse_example [] doc_wrapped_hidden =
       ([MicrodataItem [] None [''a'' \<mapsto> String ''Bob'']], [])"
  by (simp add: doc_wrapped_hidden_def elem_b_def eval_defs)

text \<open>
  Claim C9, amended. Let \<open>n\<close> be an element with \<^verbatim>\<open>itemscope\<close> at the path \<open>q\<close> of the
  document, and \<open>c\<close> an element with \<^verbatim>\<open>itemscope\<close> and without a non-empty property name
  that the property scan of \<open>n\<close> visits at the path \<open>r\<close> below \<open>n\<close>. The scan of \<open>n\<close> gives
  the same item as on the tree in which \<open>c\<close> is replaced by its children, so no value is bound
  for \<open>c\<close> itself; the position of \<open>c\<close> is not among those of the top-level items, which are
  all the items of the result; and every property element that the scan of \<open>c\<close> visits, that
  is every descendant with a property name that does not lie below another element with a
  property name, is bound in the item of \<open>n\<close>.
\<close>

theorem unnamed_scope_transparent:
  assumes "nodeAt doc q = Some n" "nodeType n = ElementNode" "getAttr n ''itemscope''"
    and "scannedAt n r = Some c" "nodeType c = ElementNode" "getAttr c ''itemscope''"
    and "getAttrVal c ''itemprop'' = []"
  shows "parseProperties up n item URL = parseProperties up (spliceAt n r) item URL
         \<and> q @ r \<notin> fst ` set (topItems doc)
         \<and> fst (W3CMicrodata up URL doc) =
             map (\<lambda>e. parseProperties up (snd e) (newItem (snd e)) URL) (topItems doc)
         \<and> (scannedAt c r' = Some e \<and> nodeType e = ElementNode \<and> getAttrVal e ''itemprop'' \<noteq> []
              \<longrightarrow> childValue up URL e
                    \<in> set (slotValues (Properties (parseProperties up n (newItem n) URL)
                                         (getAttrVal e ''itemprop''))))"
proof -
  from spliceAt_bindings [OF assms(4,5,7), of up URL]
  have same: "parseProperties up n item URL = parseProperties up (spliceAt n r) item URL"
    by (simp add: loop_bindings(1))
  from assms(4) have "r \<noteq> []" by (rule scannedAt_nonempty)
  with assms(1,2,3) have top: "q @ r \<notin> fst ` set (topItems doc)"
    by (rule not_top_below_scope)
  have below: "childValue up URL e
         \<in> set (slotValues (Properties (parseProperties up n (newItem n) URL)
                              (getAttrVal e ''itemprop'')))"
    if e: "scannedAt c r' = Some e" "nodeType e = ElementNode" "getAttrVal e ''itemprop'' \<noteq> []"
  proof -
    from assms(4,5,7) e(1) have "scannedAt n (r @ r') = Some e"
      by (rule scannedAt_append)
    from scannedAt_bindings [OF this e(2,3), of up URL] show ?thesis
      by (rule bound_value_in_slot)
  qed
  from same top below show ?thesis
    by (simp add: W3CMicrodata_topItems)
qed

theorem unnamed_scope_transparent_witness:
  "nodeAt doc_wrapped [0] = Some elem_outer \<and> scannedAt elem_outer [0] = Some elem_wrapper
   \<and> getAttr elem_wrapper ''itemscope''
   \<and> spliceAt elem_outer [0] = element ''div'' [attr ''itemscope'' []] [elem_inner_name]
   \<and> [0, 0] \<notin> fst ` set (topItems doc_wrapped)
   \<and> W3CMicrodata parse_example [] doc_wrapped =
       ([MicrodataItem [] None [''name'' \<mapsto> String ''Ann'']], [])"
proof -
  have h: "nodeAt doc_wrapped [0] = Some elem_outer" "nodeType elem_outer = ElementNode"
    "getAttr elem_outer ''itemscope''" "scannedAt elem_outer [0] = Some elem_wrapper"
    "nodeType elem_wrapper = ElementNode" "getAttr elem_wrapper ''itemscope''"
    "getAttrVal elem_wrapper ''itemprop'' = []"
    by (simp_all add: doc_wrapped_def elem_outer_def elem_wrapper_def eval_defs)
  have s: "spliceAt elem_outer [0] = element ''div'' [attr ''itemscope'' []] [elem_inner_name]"
    by (simp add: elem_outer_def elem_wrapper_def element_def)
  have w: "W3CMicrodata parse_example [] doc_wrapped =
       ([MicrodataItem [] None [''name'' \<mapsto> String ''Ann'']], [])"
    by (simp add: doc_wrapped_def elem_outer_def elem_wrapper_def elem_inner_name_def eval_defs)
  from unnamed_scope_transparent [OF h, of parse_example "newItem elem_outer" "[]" "[0]"
      elem_inner_name] h(1,4,6) s w
  show ?thesis by simp
qed


end
